theory Spec2Isabelle
  imports Complex_Main
begin

section \<open>Data model of asteroid01.py\<close>

text \<open>
  The program is three Python classes: \<open>Model\<close> (game state), \<open>View\<close> (two text labels in
  a window of the graphics toolkit) and \<open>Controller\<close> (clock, input polling and the main
  loop). Each class is a record, each method a function that takes the object (and the
  outside world, where the method touches it) and returns the updated one.

  Times are Python floats in the source; here they are real numbers, so rounding of
  single operations is not part of the model. \<open>1/20\<close> is Python 3 true division.
\<close>

datatype error = TypeError | ValueError

text \<open>
  The observables dict is only ever built by the two dict displays in \<open>Model.__init__\<close> and
  \<open>Model.update_observables\<close>; both create a fresh dict with exactly the keys
  \<open>'time'\<close> and \<open>'done'\<close>, and nothing updates a dict in place. It is a record with these
  two fields.
\<close>

record observables =
  obs_time :: real
  obs_done :: bool

record model =
  m_width :: int
  m_height :: int
  m_time :: real
  m_done :: bool
  m_observables :: observables

text \<open>A \<open>grf.Point\<close>, as returned by \<open>checkMouse\<close> and \<open>getMouse\<close>.\<close>

datatype point = Point real real

text \<open>A \<open>grf.Text\<close>: its anchor, its string, and whether it has been drawn.\<close>

record gtext =
  t_anchor :: point
  t_label :: string
  t_drawn :: bool

text \<open>A \<open>grf.GraphWin\<close>.\<close>

record graphwin =
  w_title :: string
  w_width :: int
  w_height :: int
  w_background :: string
  w_closed :: bool

record view =
  v_win :: graphwin
  v_time_text :: gtext
  v_done_text :: gtext
  v_observed :: "observables option"

record controller =
  c_model :: model
  c_view :: view
  c_done :: bool
  c_click :: "point option"
  c_key :: "string option"
  c_framerate :: real
  c_start_time :: real

section \<open>The outside world\<close>

text \<open>
  What the program reads from and does to its environment: the wall clock, the sleeps it
  asks for, and the mouse and keyboard polls. \<open>now\<close> is the wall clock at the
  program's next call of \<open>time.time()\<close> or \<open>time.sleep\<close>. \<open>lat\<close> is the environment's
  schedule: \<open>lat k\<close> is the time that passes after the \<open>k\<close>-th such call returns and
  before the next one is made (for a sleep it includes any overshoot). \<open>reads\<close> logs the
  values returned by \<open>time.time()\<close>, \<open>slept\<close> the arguments of the calls of
  \<open>time.sleep\<close>. \<open>mouse\<close> and \<open>keyb\<close> give what the \<open>n\<close>-th call of
  \<open>checkMouse\<close> and \<open>checkKey\<close> returns.
\<close>

record world =
  now :: real
  tick :: nat
  lat :: "nat \<Rightarrow> real"
  reads :: "real list"
  slept :: "real list"
  mpolls :: nat
  kpolls :: nat
  mouse :: "nat \<Rightarrow> point option"
  keyb :: "nat \<Rightarrow> string option"

definition elapse :: "real \<Rightarrow> world \<Rightarrow> world" where
  "elapse d w = w\<lparr>now := now w + d + lat w (tick w), tick := Suc (tick w)\<rparr>"

text \<open>\<open>time.time()\<close>: the current wall clock.\<close>

definition time_time :: "world \<Rightarrow> real \<times> world" where
  "time_time w = (now w, elapse 0 (w\<lparr>reads := reads w @ [now w]\<rparr>))"

text \<open>\<open>time.sleep(d)\<close>: raises \<open>ValueError\<close> for a negative argument, else suspends
  for at least \<open>d\<close> seconds.\<close>

definition time_sleep :: "real \<Rightarrow> world \<Rightarrow> error + world" where
  "time_sleep d w =
     (if d < 0 then Inl ValueError
      else Inr (elapse d (w\<lparr>slept := slept w @ [d]\<rparr>)))"

definition checkMouse :: "world \<Rightarrow> point option \<times> world" where
  "checkMouse w = (mouse w (mpolls w), w\<lparr>mpolls := Suc (mpolls w)\<rparr>)"

definition checkKey :: "world \<Rightarrow> string option \<times> world" where
  "checkKey w = (keyb w (kpolls w), w\<lparr>kpolls := Suc (kpolls w)\<rparr>)"

section \<open>Python's \<open>int()\<close> and \<open>str.format\<close>\<close>

text \<open>\<open>int(x)\<close> of a float truncates toward zero.\<close>

definition py_int :: "real \<Rightarrow> int" where
  "py_int x = (if 0 \<le> x then \<lfloor>x\<rfloor> else - \<lfloor>- x\<rfloor>)"

definition digit_char :: "nat \<Rightarrow> char" where
  "digit_char d = ''0123456789'' ! d"

function str_nat :: "nat \<Rightarrow> string" where
  "str_nat n = (if n < 10 then [digit_char n] else str_nat (n div 10) @ [digit_char (n mod 10)])"
  by pat_completeness auto
termination
  by (relation "measure id") auto

declare str_nat.simps [simp del]

definition str_int :: "int \<Rightarrow> string" where
  "str_int i = (if i < 0 then CHR ''-'' # str_nat (nat (- i)) else str_nat (nat i))"

definition str_bool :: "bool \<Rightarrow> string" where
  "str_bool b = (if b then ''True'' else ''False'')"

section \<open>class View\<close>

definition View_init :: "int \<Rightarrow> int \<Rightarrow> view" where
  "View_init width height =
     \<lparr>v_win = \<lparr>w_title = ''Asteroid'', w_width = width, w_height = height,
               w_background = '''', w_closed = False\<rparr>,
      v_time_text = \<lparr>t_anchor = Point 1100 50, t_label = ''Time: 0'', t_drawn = False\<rparr>,
      v_done_text = \<lparr>t_anchor = Point 1100 150, t_label = ''Done: False'', t_drawn = False\<rparr>,
      v_observed = None\<rparr>"

definition View_initialize :: "view \<Rightarrow> view" where
  "View_initialize v =
     v\<lparr>v_win := (v_win v)\<lparr>w_background := ''white''\<rparr>,
       v_time_text := (v_time_text v)\<lparr>t_drawn := True\<rparr>,
       v_done_text := (v_done_text v)\<lparr>t_drawn := True\<rparr>\<rparr>"

text \<open>Subscripting \<open>self.observed\<close> while it is still \<open>None\<close> raises \<open>TypeError\<close>.\<close>

definition View_draw_done :: "view \<Rightarrow> error + view" where
  "View_draw_done v =
     (case v_observed v of
        None \<Rightarrow> Inl TypeError
      | Some ob \<Rightarrow>
          Inr (v\<lparr>v_done_text := (v_done_text v)\<lparr>t_label := ''Done: '' @ str_bool (obs_done ob)\<rparr>\<rparr>))"

definition View_draw_time :: "view \<Rightarrow> error + view" where
  "View_draw_time v =
     (case v_observed v of
        None \<Rightarrow> Inl TypeError
      | Some ob \<Rightarrow>
          Inr (v\<lparr>v_time_text := (v_time_text v)\<lparr>t_label := ''Time: '' @ str_int (py_int (obs_time ob))\<rparr>\<rparr>))"

definition View_update :: "view \<Rightarrow> observables \<Rightarrow> error + view" where
  "View_update v obs =
     (case View_draw_time (v\<lparr>v_observed := Some obs\<rparr>) of
        Inl e \<Rightarrow> Inl e
      | Inr v' \<Rightarrow> View_draw_done v')"

section \<open>class Model\<close>

definition Model_init :: model where
  "Model_init =
     \<lparr>m_width = 1200, m_height = 800, m_time = 0, m_done = False,
      m_observables = \<lparr>obs_time = 0, obs_done = False\<rparr>\<rparr>"

definition Model_set_time :: "model \<Rightarrow> real \<Rightarrow> model" where
  "Model_set_time m t = m\<lparr>m_time := t\<rparr>"

definition Model_update_observables :: "model \<Rightarrow> model" where
  "Model_update_observables m =
     m\<lparr>m_observables := \<lparr>obs_time = m_time m, obs_done = m_done m\<rparr>\<rparr>"

text \<open>\<open>Model.update(click, key)\<close>: the returned flag and the updated model.\<close>

definition Model_update :: "model \<Rightarrow> point option \<Rightarrow> string option \<Rightarrow> bool \<times> model" where
  "Model_update m click key =
     (let m1 = (if key = Some ''a'' then m\<lparr>m_done := True\<rparr> else m);
          m2 = Model_update_observables m1
      in (m_done m2, m2))"

section \<open>class Controller\<close>

definition Controller_init :: controller where
  "Controller_init =
     \<lparr>c_model = Model_init,
      c_view = View_init (m_width Model_init) (m_height Model_init),
      c_done = False, c_click = None, c_key = None,
      c_framerate = 1 / 20, c_start_time = 0\<rparr>"

definition Controller_check_user_input :: "controller \<Rightarrow> world \<Rightarrow> controller \<times> world" where
  "Controller_check_user_input c w =
     (let (click, w1) = checkMouse w;
          (key, w2) = checkKey w1
      in (c\<lparr>c_click := click, c_key := key\<rparr>, w2))"

definition Controller_update_time :: "controller \<Rightarrow> real \<Rightarrow> world \<Rightarrow> error + controller \<times> world" where
  "Controller_update_time c loop_start w =
     (let (loop_end, w1) = time_time w;
          execute_time = loop_end - loop_start
      in case (if execute_time < c_framerate c
               then time_sleep (c_framerate c - execute_time) w1
               else Inr w1) of
           Inl e \<Rightarrow> Inl e
         | Inr w2 \<Rightarrow>
             (let (t, w3) = time_time w2
              in Inr (c\<lparr>c_model := Model_set_time (c_model c) (t - c_start_time c)\<rparr>, w3)))"

text \<open>\<open>Controller.update()\<close>: the returned flag, the controller and the world.\<close>

definition Controller_update :: "controller \<Rightarrow> world \<Rightarrow> error + bool \<times> controller \<times> world" where
  "Controller_update c w =
     (let (loop_start, w1) = time_time w;
          (c1, w2) = Controller_check_user_input c w1;
          (d, m') = Model_update (c_model c1) (c_click c1) (c_key c1);
          c2 = c1\<lparr>c_model := m'\<rparr>
      in case View_update (c_view c2) (m_observables (c_model c2)) of
           Inl e \<Rightarrow> Inl e
         | Inr v' \<Rightarrow>
             (case Controller_update_time (c2\<lparr>c_view := v'\<rparr>) loop_start w2 of
                Inl e \<Rightarrow> Inl e
              | Inr (c3, w3) \<Rightarrow> Inr (d, c3, w3)))"

text \<open>The loop body \<open>self.done = self.update()\<close> of \<open>Controller.run\<close>.\<close>

definition loop_body :: "controller \<Rightarrow> world \<Rightarrow> error + controller \<times> world" where
  "loop_body c w =
     (case Controller_update c w of
        Inl e \<Rightarrow> Inl e
      | Inr (d, c', w') \<Rightarrow> Inr (c'\<lparr>c_done := d\<rparr>, w'))"

text \<open>The \<open>while not self.done\<close> loop of \<open>Controller.run\<close>. It need not terminate: not
  returning is the value \<open>None\<close>.\<close>

partial_function (option) run_loop :: "controller \<Rightarrow> world \<Rightarrow> (error + controller \<times> world) option" where
  "run_loop c w =
     (if c_done c then Some (Inr (c, w))
      else case loop_body c w of
             Inl e \<Rightarrow> Some (Inl e)
           | Inr (c', w') \<Rightarrow> run_loop c' w')"

text \<open>\<open>Controller.run()\<close>. The two calls of \<open>getMouse()\<close> block until a click and their
  result is discarded; the time they take is part of the world's schedule.\<close>

definition Controller_run :: "controller \<Rightarrow> world \<Rightarrow> (error + controller \<times> world) option" where
  "Controller_run c w =
     (let c1 = c\<lparr>c_view := View_initialize (c_view c)\<rparr>;
          (t, w1) = time_time w;
          c2 = c1\<lparr>c_start_time := t\<rparr>
      in case run_loop c2 w1 of
           None \<Rightarrow> None
         | Some (Inl e) \<Rightarrow> Some (Inl e)
         | Some (Inr (c3, w2)) \<Rightarrow>
             Some (Inr (c3\<lparr>c_view := (c_view c3)\<lparr>v_win := (v_win (c_view c3))\<lparr>w_closed := True\<rparr>\<rparr>\<rparr>, w2)))"

text \<open>The state after the loop body has run \<open>n\<close> times in a row (whatever the loop
  condition says): the reference the loop is compared with.\<close>

fun iterations :: "nat \<Rightarrow> controller \<Rightarrow> world \<Rightarrow> error + controller \<times> world" where
  "iterations 0 c w = Inr (c, w)"
| "iterations (Suc n) c w =
     (case loop_body c w of
        Inl e \<Rightarrow> Inl e
      | Inr (c', w') \<Rightarrow> iterations n c' w')"

section \<open>Auxiliary definitions for the statements\<close>

text \<open>The world after the first clock read and the input poll of \<open>Controller.update\<close>.\<close>

definition polled :: "world \<Rightarrow> world" where
  "polled w =
     (elapse 0 (w\<lparr>reads := reads w @ [now w]\<rparr>))\<lparr>mpolls := Suc (mpolls w), kpolls := Suc (kpolls w)\<rparr>"

text \<open>The world of \<open>Controller.update_time\<close> just before its second clock read: after the
  first read and, when the iteration was short, the sleep.\<close>

definition paced :: "real \<Rightarrow> real \<Rightarrow> world \<Rightarrow> world" where
  "paced fr ls w =
     (let w1 = elapse 0 (w\<lparr>reads := reads w @ [now w]\<rparr>)
      in if now w - ls < fr
         then elapse (fr - (now w - ls)) (w1\<lparr>slept := slept w1 @ [fr - (now w - ls)]\<rparr>)
         else w1)"

text \<open>Reading a decimal numeral back, to state what \<open>str_int\<close> prints.\<close>

definition digit_val :: "char \<Rightarrow> nat" where
  "digit_val ch = of_char ch - 48"

definition val_nat :: "string \<Rightarrow> nat" where
  "val_nat s = foldl (\<lambda>a ch. 10 * a + digit_val ch) 0 s"

definition val_int :: "string \<Rightarrow> int" where
  "val_int s = (if s \<noteq> [] \<and> hd s = CHR ''-'' then - int (val_nat (tl s)) else int (val_nat s))"

text \<open>What a call of \<open>Controller.update\<close> rendered, what it left as the model's time, and
  the clock reads logged so far.\<close>

definition rendered_time :: "error + bool \<times> controller \<times> world \<Rightarrow> real option" where
  "rendered_time r =
     (case r of Inl e \<Rightarrow> None | Inr (d, c, w) \<Rightarrow> map_option obs_time (v_observed (c_view c)))"

definition model_time :: "error + bool \<times> controller \<times> world \<Rightarrow> real option" where
  "model_time r = (case r of Inl e \<Rightarrow> None | Inr (d, c, w) \<Rightarrow> Some (m_time (c_model c)))"

definition clock_reads :: "error + bool \<times> controller \<times> world \<Rightarrow> real list" where
  "clock_reads r = (case r of Inl e \<Rightarrow> [] | Inr (d, c, w) \<Rightarrow> reads w)"

text \<open>The clock reads logged, and the time the model holds, after \<open>n\<close> runs of the
  loop body.\<close>

definition reads_after :: "nat \<Rightarrow> controller \<Rightarrow> world \<Rightarrow> real list" where
  "reads_after n c w = (case iterations n c w of Inl e \<Rightarrow> [] | Inr (c', w') \<Rightarrow> reads w')"

definition time_after :: "nat \<Rightarrow> controller \<Rightarrow> world \<Rightarrow> real option" where
  "time_after n c w =
     (case iterations n c w of Inl e \<Rightarrow> None | Inr (c', w') \<Rightarrow> Some (m_time (c_model c')))"

text \<open>
  A concrete run, at the entry of the loop of \<open>Controller.run\<close>: the start time 1 has
  just been read, every step of the schedule takes a hundredth of a second, no mouse
  click arrives, and the third key poll returns \<open>'a'\<close>.
\<close>

definition demo_controller :: controller where
  "demo_controller = Controller_init\<lparr>c_start_time := 1\<rparr>"

definition demo_world :: world where
  "demo_world =
     \<lparr>now = 101 / 100, tick = 1, lat = (\<lambda>k. 1 / 100), reads = [1], slept = [],
      mpolls = 0, kpolls = 0, mouse = (\<lambda>n. None),
      keyb = (\<lambda>n. if n = 2 then Some ''a'' else None)\<rparr>"

text \<open>The same controller once the game is over, and a view that has been handed the
  time 12.37.\<close>

definition finished_controller :: controller where
  "finished_controller = demo_controller\<lparr>c_model := Model_init\<lparr>m_done := True\<rparr>\<rparr>"

definition demo_view :: view where
  "demo_view =
     (View_init 1200 800)\<lparr>v_observed := Some \<lparr>obs_time = 1237 / 100, obs_done = False\<rparr>\<rparr>"

section \<open>The methods in closed form\<close>

lemma View_update_eq:
  "View_update v ob =
     Inr (v\<lparr>v_observed := Some ob,
           v_time_text := (v_time_text v)\<lparr>t_label := ''Time: '' @ str_int (py_int (obs_time ob))\<rparr>,
           v_done_text := (v_done_text v)\<lparr>t_label := ''Done: '' @ str_bool (obs_done ob)\<rparr>\<rparr>)"
  by (simp add: View_update_def View_draw_time_def View_draw_done_def)

lemma Model_update_eq:
  "Model_update m click key =
     (m_done m \<or> key = Some ''a'',
      m\<lparr>m_done := (m_done m \<or> key = Some ''a''),
        m_observables := \<lparr>obs_time = m_time m, obs_done = (m_done m \<or> key = Some ''a'')\<rparr>\<rparr>)"
  by (simp add: Model_update_def Model_update_observables_def Let_def)

lemma check_user_input_eq:
  "Controller_check_user_input c w =
     (c\<lparr>c_click := mouse w (mpolls w), c_key := keyb w (kpolls w)\<rparr>,
      w\<lparr>mpolls := Suc (mpolls w), kpolls := Suc (kpolls w)\<rparr>)"
  by (simp add: Controller_check_user_input_def checkMouse_def checkKey_def)

lemma update_time_eq:
  "Controller_update_time c ls w =
     Inr (c\<lparr>c_model := Model_set_time (c_model c) (now (paced (c_framerate c) ls w) - c_start_time c)\<rparr>,
          elapse 0 ((paced (c_framerate c) ls w)
            \<lparr>reads := reads (paced (c_framerate c) ls w) @ [now (paced (c_framerate c) ls w)]\<rparr>))"
  by (simp add: Controller_update_time_def time_time_def time_sleep_def Let_def paced_def)

lemma Controller_update_eq:
  "Controller_update c w =
     (let d = (m_done (c_model c) \<or> keyb w (kpolls w) = Some ''a'');
          ob = \<lparr>obs_time = m_time (c_model c), obs_done = d\<rparr>;
          w2 = paced (c_framerate c) (now w) (polled w)
      in Inr (d,
              c\<lparr>c_click := mouse w (mpolls w), c_key := keyb w (kpolls w),
                c_model := (c_model c)\<lparr>m_done := d, m_observables := ob,
                                        m_time := now w2 - c_start_time c\<rparr>,
                c_view := (c_view c)\<lparr>v_observed := Some ob,
                   v_time_text := (v_time_text (c_view c))
                     \<lparr>t_label := ''Time: '' @ str_int (py_int (obs_time ob))\<rparr>,
                   v_done_text := (v_done_text (c_view c))
                     \<lparr>t_label := ''Done: '' @ str_bool (obs_done ob)\<rparr>\<rparr>\<rparr>,
              elapse 0 (w2\<lparr>reads := reads w2 @ [now w2]\<rparr>)))"
  by (simp add: Controller_update_def time_time_def check_user_input_eq Model_update_eq
      View_update_eq update_time_eq Let_def polled_def Model_set_time_def elapse_def)

lemma loop_body_eq:
  "loop_body c w =
     (let d = (m_done (c_model c) \<or> keyb w (kpolls w) = Some ''a'');
          ob = \<lparr>obs_time = m_time (c_model c), obs_done = d\<rparr>;
          w2 = paced (c_framerate c) (now w) (polled w)
      in Inr (c\<lparr>c_click := mouse w (mpolls w), c_key := keyb w (kpolls w),
                c_model := (c_model c)\<lparr>m_done := d, m_observables := ob,
                                        m_time := now w2 - c_start_time c\<rparr>,
                c_view := (c_view c)\<lparr>v_observed := Some ob,
                   v_time_text := (v_time_text (c_view c))
                     \<lparr>t_label := ''Time: '' @ str_int (py_int (obs_time ob))\<rparr>,
                   v_done_text := (v_done_text (c_view c))
                     \<lparr>t_label := ''Done: '' @ str_bool (obs_done ob)\<rparr>\<rparr>,
                c_done := d\<rparr>,
              elapse 0 (w2\<lparr>reads := reads w2 @ [now w2]\<rparr>)))"
  by (simp add: loop_body_def Controller_update_eq Let_def)

subsection \<open>The world after polling and pacing\<close>

lemma paced_frame [simp]:
  "lat (paced fr ls w) = lat w" "kpolls (paced fr ls w) = kpolls w"
  "keyb (paced fr ls w) = keyb w" "mpolls (paced fr ls w) = mpolls w"
  "mouse (paced fr ls w) = mouse w"
  by (simp_all add: paced_def elapse_def Let_def)

lemma polled_frame [simp]:
  "lat (polled w) = lat w" "kpolls (polled w) = Suc (kpolls w)" "keyb (polled w) = keyb w"
  "now (polled w) = now w + lat w (tick w)" "tick (polled w) = Suc (tick w)"
  "reads (polled w) = reads w @ [now w]" "slept (polled w) = slept w"
  by (simp_all add: polled_def elapse_def)

lemma paced_now:
  "now (paced fr ls w) =
     (if now w - ls < fr then ls + fr + lat w (tick w) + lat w (Suc (tick w))
      else now w + lat w (tick w))"
  by (simp add: paced_def elapse_def Let_def)

lemma paced_tick:
  "tick (paced fr ls w) = (if now w - ls < fr then Suc (Suc (tick w)) else Suc (tick w))"
  by (simp add: paced_def elapse_def Let_def)

lemma paced_reads: "reads (paced fr ls w) = reads w @ [now w]"
  by (simp add: paced_def elapse_def Let_def)

lemma paced_slept:
  "slept (paced fr ls w) = slept w @ (if now w - ls < fr then [fr - (now w - ls)] else [])"
  by (simp add: paced_def elapse_def Let_def)

section \<open>Model.update: the done flag and the frame\<close>

text \<open>
  C1. For every model state and every click, \<open>Model.update\<close> with the key \<open>'a'\<close> returns
  \<open>True\<close> and leaves \<open>done\<close> true, whatever \<open>done\<close> was before; a second \<open>'a'\<close>
  keeps it true.
\<close>

theorem Model_update_key_a:
  "fst (Model_update m click (Some ''a'')) \<and>
   m_done (snd (Model_update m click (Some ''a''))) \<and>
   m_done (snd (Model_update (snd (Model_update m click (Some ''a''))) click' (Some ''a'')))"
  by (simp add: Model_update_eq)

text \<open>
  C2. For every key other than \<open>'a'\<close> (no key, \<open>None\<close>, included), \<open>Model.update\<close>
  leaves \<open>done\<close> as it was, and returns that value.
\<close>

theorem Model_update_other_key:
  assumes "key \<noteq> Some ''a''"
  shows "m_done (snd (Model_update m click key)) = m_done m \<and>
         fst (Model_update m click key) = m_done m"
  using assms by (simp add: Model_update_eq)

theorem Model_update_other_key_witness:
  "(None :: string option) \<noteq> Some ''a'' \<and>
   m_done (snd (Model_update Model_init None None)) = m_done Model_init \<and>
   fst (Model_update Model_init None None) = False"
  using Model_update_other_key [of None Model_init None] by (simp add: Model_init_def)

text \<open>
  C6. The click does not take part in \<open>Model.update\<close>: two calls that differ only in the
  click return the same flag and the same model.
\<close>

theorem Model_update_ignores_click:
  "Model_update m c1 key = Model_update m c2 key"
  by (simp add: Model_update_eq)

text \<open>
  C7. \<open>Model.update\<close> leaves the model's time, width and height as they were, as do
  \<open>Model.update_observables\<close> and the input poll; the time is written by
  \<open>Model.set_time\<close>, which \<open>Controller.update_time\<close> calls with its last clock read
  minus the start time.
\<close>

theorem Model_update_frame:
  "m_time (snd (Model_update m click key)) = m_time m \<and>
   m_width (snd (Model_update m click key)) = m_width m \<and>
   m_height (snd (Model_update m click key)) = m_height m \<and>
   m_time (Model_update_observables m) = m_time m \<and>
   c_model (fst (Controller_check_user_input c w)) = c_model c \<and>
   Model_set_time m t = m\<lparr>m_time := t\<rparr> \<and>
   (\<exists>c' w' T. Controller_update_time c ls w = Inr (c', w') \<and> last (reads w') = T \<and>
      c_model c' = Model_set_time (c_model c) (T - c_start_time c))"
  by (simp add: Model_update_eq Model_update_observables_def check_user_input_eq
      Model_set_time_def update_time_eq elapse_def)

section \<open>Controller.update: rendering and the clock\<close>

text \<open>
  C3, as the code has it. \<open>Controller.update\<close> renders before it sets the time: the
  observables handed to \<open>View.update\<close> carry the time the model had when the iteration
  began (what the previous iteration set, 0 in the first one), and the time label shows
  that value. The elapsed time of this iteration, the third clock read minus the start
  time, is stored in the model after the rendering.
\<close>

theorem render_precedes_set_time:
  "\<exists>d c' w' T. Controller_update c w = Inr (d, c', w') \<and>
     v_observed (c_view c') = Some \<lparr>obs_time = m_time (c_model c), obs_done = d\<rparr> \<and>
     t_label (v_time_text (c_view c')) = ''Time: '' @ str_int (py_int (m_time (c_model c))) \<and>
     reads w' = reads w @ [now w, now w + lat w (tick w), T] \<and>
     m_time (c_model c') = T - c_start_time c"
  by (simp add: Controller_update_eq Let_def elapse_def paced_reads)

text \<open>
  C3 as stated (the rendered time is the elapsed time measured in the same iteration)
  fails: in the first iteration of the concrete run the view
  is handed the time 0, while the clock reads of that iteration are 1.01, 1.02 and 1.08
  against the start time 1, and the elapsed time the iteration stores is 0.08.
\<close>

theorem rendered_time_counterexample:
  "rendered_time (Controller_update demo_controller demo_world) = Some 0 \<and>
   model_time (Controller_update demo_controller demo_world) = Some (2 / 25) \<and>
   clock_reads (Controller_update demo_controller demo_world) = [1, 101 / 100, 51 / 50, 27 / 25] \<and>
   rendered_time (Controller_update demo_controller demo_world)
     \<noteq> model_time (Controller_update demo_controller demo_world)"
  by (simp add: rendered_time_def model_time_def clock_reads_def Controller_update_eq Let_def
      demo_controller_def demo_world_def Controller_init_def Model_init_def View_init_def
      paced_now paced_reads elapse_def)

text \<open>
  C5. \<open>Controller.update_time\<close> reads the clock, takes \<open>elapsed = now - t\<close>, and asks for
  a sleep of exactly \<open>framerate - elapsed\<close> when \<open>elapsed < framerate\<close>, for none
  otherwise. With a clock that does not run backwards, its last clock read \<open>T\<close>, taken
  before it returns, is at least \<open>t + framerate\<close>; when no sleep is due, \<open>T\<close> is the first
  read plus the time the schedule lets pass between the two reads.
\<close>

theorem update_time_paces:
  assumes "\<forall>k. 0 \<le> lat w k"
  shows "\<exists>c' w' T. Controller_update_time c t w = Inr (c', w') \<and>
           reads w' = reads w @ [now w, T] \<and>
           slept w' = slept w @
             (if now w - t < c_framerate c then [c_framerate c - (now w - t)] else []) \<and>
           T = (if now w - t < c_framerate c
                then t + c_framerate c + lat w (tick w) + lat w (Suc (tick w))
                else now w + lat w (tick w)) \<and>
           t + c_framerate c \<le> T \<and> T \<le> now w'"
proof -
  have l: "0 \<le> lat w (tick w)" "0 \<le> lat w (Suc (tick w))" "0 \<le> lat w (Suc (Suc (tick w)))"
    using assms by simp_all
  show ?thesis
    using l
    by (simp add: update_time_eq paced_now paced_reads paced_slept paced_tick elapse_def)
qed

theorem update_time_paces_witness:
  "(\<forall>k. 0 \<le> lat demo_world k) \<and>
   (\<exists>c' w' T. Controller_update_time demo_controller 1 demo_world = Inr (c', w') \<and>
      reads w' = [1, 101 / 100, T] \<and> slept w' = [1 / 25] \<and> T = 107 / 100 \<and>
      1 + 1 / 20 \<le> T \<and> T \<le> now w')"
proof -
  have h: "\<forall>k. 0 \<le> lat demo_world k" by (simp add: demo_world_def)
  have e: "now demo_world = 101 / 100" "tick demo_world = 1" "reads demo_world = [1]"
    "slept demo_world = []" "c_framerate demo_controller = 1 / 20"
    "lat demo_world = (\<lambda>k. 1 / 100)"
    by (simp_all add: demo_world_def demo_controller_def Controller_init_def)
  show ?thesis
    using h update_time_paces [OF h, of demo_controller 1] by (simp add: e)
qed

section \<open>The loop of Controller.run\<close>

lemma loop_body_step:
  "\<exists>c' w'. loop_body c w = Inr (c', w') \<and>
     c_done c' = (m_done (c_model c) \<or> keyb w (kpolls w) = Some ''a'') \<and>
     m_done (c_model c') = c_done c' \<and>
     kpolls w' = Suc (kpolls w) \<and> keyb w' = keyb w \<and> lat w' = lat w \<and>
     c_start_time c' = c_start_time c \<and> c_framerate c' = c_framerate c"
  by (simp add: loop_body_eq Let_def elapse_def)

lemma iterations_snoc:
  "iterations (Suc n) c w =
     (case iterations n c w of Inl e \<Rightarrow> Inl e | Inr (c', w') \<Rightarrow> loop_body c' w')"
proof (induction n arbitrary: c w)
  case 0
  show ?case by (simp split: sum.splits)
next
  case (Suc n)
  show ?case
  proof (cases "loop_body c w")
    case (Inl e)
    then show ?thesis by simp
  next
    case (Inr p)
    obtain c' w' where p: "p = (c', w')" by (cases p)
    have "iterations (Suc (Suc n)) c w = iterations (Suc n) c' w'"
      using Inr p by simp
    also have "\<dots> = (case iterations n c' w' of Inl e \<Rightarrow> Inl e | Inr (c'', w'') \<Rightarrow> loop_body c'' w'')"
      by (rule Suc.IH)
    also have "iterations n c' w' = iterations (Suc n) c w"
      using Inr p by simp
    finally show ?thesis .
  qed
qed

lemma loop_body_reads:
  "\<exists>c' w' a b T. loop_body c w = Inr (c', w') \<and> reads w' = reads w @ [a, b, T] \<and>
     m_time (c_model c') = T - c_start_time c \<and> c_start_time c' = c_start_time c"
  by (simp add: loop_body_eq Let_def elapse_def paced_reads)

lemma iterations_reads:
  "\<exists>c' w' xs. iterations n c w = Inr (c', w') \<and> reads w' = reads w @ xs \<and>
     c_start_time c' = c_start_time c \<and>
     (0 < n \<longrightarrow> xs \<noteq> [] \<and> m_time (c_model c') = last xs - c_start_time c)"
proof (induction n)
  case 0
  show ?case by simp
next
  case (Suc n)
  then obtain c1 w1 xs where it: "iterations n c w = Inr (c1, w1)"
    and r1: "reads w1 = reads w @ xs" and s1: "c_start_time c1 = c_start_time c"
    by blast
  obtain c2 w2 a b T where b: "loop_body c1 w1 = Inr (c2, w2)"
    and r2: "reads w2 = reads w1 @ [a, b, T]"
    and t2: "m_time (c_model c2) = T - c_start_time c1"
    and s2: "c_start_time c2 = c_start_time c1"
    using loop_body_reads [of c1 w1] by blast
  have "iterations (Suc n) c w = Inr (c2, w2)"
    by (simp only: iterations_snoc [of n] it b sum.case prod.case)
  moreover have "reads w2 = reads w @ (xs @ [a, b, T])"
    using r1 r2 by simp
  moreover have "m_time (c_model c2) = last (xs @ [a, b, T]) - c_start_time c"
    using t2 s1 by simp
  ultimately show ?case
    using s1 s2 by (intro exI [of _ c2] exI [of _ w2] exI [of _ "xs @ [a, b, T]"]) simp
qed

lemma iterations_done:
  assumes "m_done (c_model c)"
  shows "\<exists>c' w'. iterations n c w = Inr (c', w') \<and> m_done (c_model c')"
proof (induction n)
  case 0
  show ?case using assms by simp
next
  case (Suc n)
  then obtain c1 w1 where it: "iterations n c w = Inr (c1, w1)" and m1: "m_done (c_model c1)"
    by blast
  obtain c2 w2 where b: "loop_body c1 w1 = Inr (c2, w2)"
    and d: "c_done c2 = (m_done (c_model c1) \<or> keyb w1 (kpolls w1) = Some ''a'')"
    and m: "m_done (c_model c2) = c_done c2"
    using loop_body_step [of c1 w1] by blast
  have "iterations (Suc n) c w = Inr (c2, w2)"
    by (simp only: iterations_snoc [of n] it b sum.case prod.case)
  then show ?case using d m m1 by simp
qed

lemma run_loop_first_a:
  assumes "\<not> c_done c" "\<not> m_done (c_model c)"
    and "keyb w (kpolls w + n) = Some ''a''"
    and "\<forall>i<n. keyb w (kpolls w + i) \<noteq> Some ''a''"
  shows "\<exists>c' w'. run_loop c w = Some (Inr (c', w')) \<and> iterations (Suc n) c w = Inr (c', w') \<and>
           c_done c' \<and> kpolls w' = kpolls w + Suc n"
  using assms
proof (induction n arbitrary: c w)
  case 0
  obtain c' w' where b: "loop_body c w = Inr (c', w')"
    and d: "c_done c' = (m_done (c_model c) \<or> keyb w (kpolls w) = Some ''a'')"
    and k: "kpolls w' = Suc (kpolls w)"
    using loop_body_step [of c w] by blast
  have d': "c_done c'" using d "0.prems" by simp
  have "run_loop c w = run_loop c' w'"
    using "0.prems"(1) b by (subst run_loop.simps) simp
  also have "\<dots> = Some (Inr (c', w'))"
    using d' by (subst run_loop.simps) simp
  finally show ?case using b d' k by simp
next
  case (Suc n)
  obtain c' w' where b: "loop_body c w = Inr (c', w')"
    and d: "c_done c' = (m_done (c_model c) \<or> keyb w (kpolls w) = Some ''a'')"
    and m: "m_done (c_model c') = c_done c'"
    and k: "kpolls w' = Suc (kpolls w)" and kb: "keyb w' = keyb w"
    using loop_body_step [of c w] by blast
  have na: "keyb w (kpolls w) \<noteq> Some ''a''"
    using Suc.prems(4) by (metis add.right_neutral zero_less_Suc)
  have d': "\<not> c_done c'" using d na Suc.prems(2) by simp
  have m': "\<not> m_done (c_model c')" using m d' by simp
  have a': "keyb w' (kpolls w' + n) = Some ''a''"
    using Suc.prems(3) k kb by simp
  have e': "\<forall>i<n. keyb w' (kpolls w' + i) \<noteq> Some ''a''"
  proof (intro allI impI)
    fix i assume "i < n"
    then have "Suc i < Suc n" by simp
    then have "keyb w (kpolls w + Suc i) \<noteq> Some ''a''" using Suc.prems(4) by blast
    then show "keyb w' (kpolls w' + i) \<noteq> Some ''a''" using k kb by simp
  qed
  obtain c2 w2 where r: "run_loop c' w' = Some (Inr (c2, w2))"
    and it: "iterations (Suc n) c' w' = Inr (c2, w2)"
    and d2: "c_done c2" and k2: "kpolls w2 = kpolls w' + Suc n"
    using Suc.IH [OF d' m' a' e'] by blast
  have "run_loop c w = run_loop c' w'"
    using Suc.prems(1) b by (subst run_loop.simps) simp
  moreover have "iterations (Suc (Suc n)) c w = iterations (Suc n) c' w'"
    using b by simp
  ultimately show ?case using r it d2 k2 k by simp
qed

lemma iterations_not_done:
  assumes "\<not> c_done c" "\<not> m_done (c_model c)"
    and "\<forall>i<j. keyb w (kpolls w + i) \<noteq> Some ''a''"
  shows "\<exists>c' w'. iterations j c w = Inr (c', w') \<and> \<not> c_done c' \<and> \<not> m_done (c_model c') \<and>
     kpolls w' = kpolls w + j \<and> keyb w' = keyb w"
  using assms
proof (induction j)
  case 0
  then show ?case by simp
next
  case (Suc j)
  then obtain c1 w1 where it: "iterations j c w = Inr (c1, w1)"
    and m1: "\<not> m_done (c_model c1)" and k1: "kpolls w1 = kpolls w + j" and kb1: "keyb w1 = keyb w"
    by auto
  obtain c2 w2 where b: "loop_body c1 w1 = Inr (c2, w2)"
    and d: "c_done c2 = (m_done (c_model c1) \<or> keyb w1 (kpolls w1) = Some ''a'')"
    and m: "m_done (c_model c2) = c_done c2"
    and k: "kpolls w2 = Suc (kpolls w1)" and kb: "keyb w2 = keyb w1"
    using loop_body_step [of c1 w1] by blast
  have "keyb w (kpolls w + j) \<noteq> Some ''a''" using Suc.prems(3) by simp
  then have "\<not> c_done c2" using d m1 k1 kb1 by simp
  moreover have "iterations (Suc j) c w = Inr (c2, w2)"
    by (simp only: iterations_snoc [of j] it b sum.case prod.case)
  ultimately show ?case using m k kb k1 kb1 by simp
qed

lemma run_loop_returns_a:
  "run_loop c w = Some r \<Longrightarrow>
     c_done c \<or> m_done (c_model c) \<or> (\<exists>n. keyb w (kpolls w + n) = Some ''a'')"
proof (induction c w r rule: run_loop.raw_induct [rotated 1, consumes 1, case_names step])
  case (step f c w r)
  show ?case
  proof (cases "c_done c")
    case True
    then show ?thesis by simp
  next
    case False
    obtain c' w' where b: "loop_body c w = Inr (c', w')"
      and d: "c_done c' = (m_done (c_model c) \<or> keyb w (kpolls w) = Some ''a'')"
      and m: "m_done (c_model c') = c_done c'"
      and k: "kpolls w' = Suc (kpolls w)" and kb: "keyb w' = keyb w"
      using loop_body_step [of c w] by blast
    have "f c' w' = Some r" using step(2) False b by simp
    then have "c_done c' \<or> m_done (c_model c') \<or> (\<exists>n. keyb w' (kpolls w' + n) = Some ''a'')"
      by (rule step(1))
    then show ?thesis
    proof (elim disjE exE)
      fix n assume "keyb w' (kpolls w' + n) = Some ''a''"
      then have "keyb w (kpolls w + Suc n) = Some ''a''" using k kb by simp
      then show ?thesis by blast
    next
      assume "c_done c'"
      then show ?thesis using d by (metis add.right_neutral)
    next
      assume "m_done (c_model c')"
      then show ?thesis using d m by (metis add.right_neutral)
    qed
  qed
qed

lemma run_loop_diverges:
  assumes "\<not> c_done c" "\<not> m_done (c_model c)" "\<forall>n. keyb w (kpolls w + n) \<noteq> Some ''a''"
  shows "run_loop c w = None"
proof (cases "run_loop c w")
  case None
  then show ?thesis .
next
  case (Some r)
  then show ?thesis using run_loop_returns_a [of c w r] assms by blast
qed

text \<open>The whole of \<open>Controller.run\<close> returns, with the window closed, once an \<open>'a'\<close> is
  polled.\<close>

lemma Controller_run_returns:
  assumes "\<not> c_done c" "\<not> m_done (c_model c)"
    and "keyb w (kpolls w + n) = Some ''a''"
    and "\<forall>i<n. keyb w (kpolls w + i) \<noteq> Some ''a''"
  shows "\<exists>c' w'. Controller_run c w = Some (Inr (c', w')) \<and> c_done c' \<and>
           w_closed (v_win (c_view c')) \<and> kpolls w' = kpolls w + Suc n"
proof -
  define c0 where "c0 = c\<lparr>c_view := View_initialize (c_view c), c_start_time := now w\<rparr>"
  define w0 where "w0 = elapse 0 (w\<lparr>reads := reads w @ [now w]\<rparr>)"
  have f: "kpolls w0 = kpolls w" "keyb w0 = keyb w"
    by (simp_all add: w0_def elapse_def)
  have "\<exists>c' w'. run_loop c0 w0 = Some (Inr (c', w')) \<and>
          iterations (Suc n) c0 w0 = Inr (c', w') \<and> c_done c' \<and> kpolls w' = kpolls w0 + Suc n"
    using assms by (intro run_loop_first_a) (simp_all add: c0_def f)
  then obtain c' w' where r: "run_loop c0 w0 = Some (Inr (c', w'))" and d: "c_done c'"
    and k: "kpolls w' = kpolls w0 + Suc n"
    by blast
  have "Controller_run c w =
          Some (Inr (c'\<lparr>c_view := (c_view c')\<lparr>v_win := (v_win (c_view c'))\<lparr>w_closed := True\<rparr>\<rparr>\<rparr>, w'))"
    using r by (simp add: Controller_run_def time_time_def Let_def c0_def w0_def)
  then show ?thesis using d k f by simp
qed

section \<open>The done flag is terminal\<close>

text \<open>
  C4. Once the model's \<open>done\<close> is true it stays true: after \<open>Model.update\<close> with any click
  and key (which then returns \<open>True\<close>), after \<open>Model.set_time\<close>,
  \<open>Model.update_observables\<close>, the input poll, \<open>Controller.update_time\<close>, a whole
  \<open>Controller.update\<close> (which returns \<open>True\<close>), and after any number of iterations of the
  loop body.
\<close>

theorem done_is_terminal:
  assumes "m_done (c_model c)"
  shows "fst (Model_update (c_model c) click key) \<and>
         m_done (snd (Model_update (c_model c) click key)) \<and>
         m_done (Model_set_time (c_model c) t) \<and>
         m_done (Model_update_observables (c_model c)) \<and>
         m_done (c_model (fst (Controller_check_user_input c w))) \<and>
         (\<exists>c' w'. Controller_update_time c ls w = Inr (c', w') \<and> m_done (c_model c')) \<and>
         (\<exists>d c' w'. Controller_update c w = Inr (d, c', w') \<and> d \<and> m_done (c_model c')) \<and>
         (\<exists>c' w'. iterations n c w = Inr (c', w') \<and> m_done (c_model c'))"
proof -
  have "\<exists>c' w'. iterations n c w = Inr (c', w') \<and> m_done (c_model c')"
    using assms by (rule iterations_done)
  moreover have "\<exists>d c' w'. Controller_update c w = Inr (d, c', w') \<and> d \<and> m_done (c_model c')"
    using assms by (auto simp add: Controller_update_eq Let_def)
  moreover have "\<exists>c' w'. Controller_update_time c ls w = Inr (c', w') \<and> m_done (c_model c')"
    using assms by (simp add: update_time_eq Model_set_time_def)
  ultimately show ?thesis
    using assms
    by (simp add: Model_update_eq Model_set_time_def Model_update_observables_def check_user_input_eq)
qed

theorem done_is_terminal_witness:
  "m_done (c_model finished_controller) \<and>
   m_done (snd (Model_update (c_model finished_controller) None (Some ''b''))) \<and>
   m_done (Model_set_time (c_model finished_controller) 3) \<and>
   (\<exists>d c' w'. Controller_update finished_controller demo_world = Inr (d, c', w') \<and> d \<and>
      m_done (c_model c')) \<and>
   (\<exists>c' w'. iterations 5 finished_controller demo_world = Inr (c', w') \<and> m_done (c_model c'))"
proof -
  have h: "m_done (c_model finished_controller)"
    by (simp add: finished_controller_def)
  show ?thesis
    using h done_is_terminal [OF h, of None "Some ''b''" 3 demo_world 0 5] by blast
qed

section \<open>The elapsed time grows\<close>

text \<open>
  C8. When the clock reads logged up to the end of iteration \<open>n + 2\<close> of the loop body are
  non-decreasing and the start time is one of the reads made before the loop, the time
  that iteration \<open>n + 1\<close> leaves in the model is non-negative, and the time that
  iteration \<open>n + 2\<close> leaves is at least as large.
\<close>

theorem elapsed_time_monotone:
  assumes "sorted (reads_after (Suc (Suc n)) c w)"
    and "c_start_time c \<in> set (reads w)"
  shows "\<exists>t1 t2. time_after (Suc n) c w = Some t1 \<and> time_after (Suc (Suc n)) c w = Some t2 \<and>
           0 \<le> t1 \<and> t1 \<le> t2"
proof -
  obtain c1 w1 xs where it: "iterations (Suc n) c w = Inr (c1, w1)"
    and r1: "reads w1 = reads w @ xs" and s1: "c_start_time c1 = c_start_time c"
    and x: "xs \<noteq> []" and t1: "m_time (c_model c1) = last xs - c_start_time c"
    using iterations_reads [of "Suc n" c w] by auto
  obtain c2 w2 a b T where b: "loop_body c1 w1 = Inr (c2, w2)"
    and r2: "reads w2 = reads w1 @ [a, b, T]"
    and t2: "m_time (c_model c2) = T - c_start_time c1"
    using loop_body_reads [of c1 w1] by blast
  have it2: "iterations (Suc (Suc n)) c w = Inr (c2, w2)"
    by (simp only: iterations_snoc [of "Suc n"] it b sum.case prod.case)
  have "sorted (reads w2)"
    using assms(1) by (simp only: reads_after_def it2 sum.case prod.case)
  then have srt: "sorted (reads w @ xs @ [a, b, T])"
    using r1 r2 by simp
  have lx: "last xs \<in> set xs" using x by simp
  have "c_start_time c \<le> last xs"
    using srt assms(2) lx by (auto simp: sorted_append)
  moreover have "last xs \<le> T"
    using srt lx by (auto simp: sorted_append)
  moreover have "time_after (Suc n) c w = Some (m_time (c_model c1))"
    by (simp only: time_after_def it sum.case prod.case)
  moreover have "time_after (Suc (Suc n)) c w = Some (m_time (c_model c2))"
    by (simp only: time_after_def it2 sum.case prod.case)
  ultimately show ?thesis
    using t1 t2 s1 by simp
qed

lemma demo_reads2:
  "reads_after (Suc (Suc 0)) demo_controller demo_world =
     [1, 101 / 100, 51 / 50, 27 / 25, 109 / 100, 11 / 10, 29 / 25]"
  by (simp add: reads_after_def loop_body_eq Let_def demo_controller_def demo_world_def
      Controller_init_def Model_init_def View_init_def paced_now paced_reads paced_tick elapse_def)

lemma demo_time1: "time_after (Suc 0) demo_controller demo_world = Some (2 / 25)"
  by (simp add: time_after_def loop_body_eq Let_def demo_controller_def demo_world_def
      Controller_init_def Model_init_def View_init_def paced_now paced_reads paced_tick elapse_def)

lemma demo_time2: "time_after (Suc (Suc 0)) demo_controller demo_world = Some (4 / 25)"
  by (simp add: time_after_def loop_body_eq Let_def demo_controller_def demo_world_def
      Controller_init_def Model_init_def View_init_def paced_now paced_reads paced_tick elapse_def)

theorem elapsed_time_monotone_witness:
  "sorted (reads_after (Suc (Suc 0)) demo_controller demo_world) \<and>
   c_start_time demo_controller \<in> set (reads demo_world) \<and>
   time_after (Suc 0) demo_controller demo_world = Some (2 / 25) \<and>
   time_after (Suc (Suc 0)) demo_controller demo_world = Some (4 / 25) \<and>
   (\<exists>t1 t2. time_after (Suc 0) demo_controller demo_world = Some t1 \<and>
      time_after (Suc (Suc 0)) demo_controller demo_world = Some t2 \<and> 0 \<le> t1 \<and> t1 \<le> t2)"
proof -
  have h1: "sorted (reads_after (Suc (Suc 0)) demo_controller demo_world)"
    by (simp add: demo_reads2)
  have h2: "c_start_time demo_controller \<in> set (reads demo_world)"
    by (simp add: demo_world_def demo_controller_def)
  show ?thesis
    using h1 h2 demo_time1 demo_time2 elapsed_time_monotone [OF h1 h2] by blast
qed

section \<open>When the loop exits\<close>

text \<open>
  C10. \<open>Model.update\<close> returns the \<open>done\<close> field of the model it leaves. Started with
  both \<open>done\<close> flags false, when the first \<open>'a'\<close> is returned by the key poll of iteration
  \<open>n + 1\<close> the loop of \<open>Controller.run\<close> returns, in the state reached by exactly
  \<open>n + 1\<close> runs of its body, with \<open>done\<close> true and \<open>n + 1\<close> key polls made; after each
  smaller number of runs \<open>done\<close> is still false.
\<close>

theorem run_loop_exits_at_first_a:
  assumes "\<not> c_done c" "\<not> m_done (c_model c)"
    and "keyb w (kpolls w + n) = Some ''a''"
    and "\<forall>i<n. keyb w (kpolls w + i) \<noteq> Some ''a''"
  shows "fst (Model_update m click key) = m_done (snd (Model_update m click key)) \<and>
         (\<exists>c' w'. run_loop c w = Some (Inr (c', w')) \<and>
            iterations (Suc n) c w = Inr (c', w') \<and> c_done c' \<and>
            kpolls w' = kpolls w + Suc n) \<and>
         (\<forall>j\<le>n. \<exists>cj wj. iterations j c w = Inr (cj, wj) \<and> \<not> c_done cj)"
proof -
  have "\<exists>cj wj. iterations j c w = Inr (cj, wj) \<and> \<not> c_done cj" if "j \<le> n" for j
  proof -
    have "\<forall>i<j. keyb w (kpolls w + i) \<noteq> Some ''a''"
      using assms(4) that by simp
    then show ?thesis
      using iterations_not_done [OF assms(1) assms(2), of j w] by blast
  qed
  then show ?thesis
    using run_loop_first_a [OF assms] by (simp add: Model_update_eq)
qed

theorem run_loop_exits_at_first_a_witness:
  "\<not> c_done demo_controller \<and> \<not> m_done (c_model demo_controller) \<and>
   keyb demo_world 2 = Some ''a'' \<and>
   keyb demo_world 0 \<noteq> Some ''a'' \<and> keyb demo_world 1 \<noteq> Some ''a'' \<and>
   (\<exists>c' w'. run_loop demo_controller demo_world = Some (Inr (c', w')) \<and>
      iterations 3 demo_controller demo_world = Inr (c', w') \<and> c_done c' \<and> kpolls w' = 3) \<and>
   (\<exists>c1 w1. iterations 1 demo_controller demo_world = Inr (c1, w1) \<and> \<not> c_done c1) \<and>
   (\<exists>c2 w2. iterations 2 demo_controller demo_world = Inr (c2, w2) \<and> \<not> c_done c2)"
proof -
  have h1: "\<not> c_done demo_controller"
    by (simp add: demo_controller_def Controller_init_def)
  have h2: "\<not> m_done (c_model demo_controller)"
    by (simp add: demo_controller_def Controller_init_def Model_init_def)
  have h3: "keyb demo_world (kpolls demo_world + 2) = Some ''a''"
    by (simp add: demo_world_def)
  have h4: "\<forall>i<2. keyb demo_world (kpolls demo_world + i) \<noteq> Some ''a''"
    by (simp add: demo_world_def)
  have k: "kpolls demo_world = 0"
    by (simp add: demo_world_def)
  have b: "keyb demo_world 2 = Some ''a''" "keyb demo_world 0 \<noteq> Some ''a''"
    "keyb demo_world 1 \<noteq> Some ''a''"
    by (simp_all add: demo_world_def)
  have s: "Suc 2 = 3" by simp
  note r = run_loop_exits_at_first_a [OF h1 h2 h3 h4, of Model_init None None]
  have e: "\<exists>c' w'. run_loop demo_controller demo_world = Some (Inr (c', w')) \<and>
      iterations 3 demo_controller demo_world = Inr (c', w') \<and> c_done c' \<and> kpolls w' = 3"
    using r unfolding k s by simp
  have a: "\<forall>j\<le>2. \<exists>cj wj. iterations j demo_controller demo_world = Inr (cj, wj) \<and> \<not> c_done cj"
    using r by simp
  have a1: "\<exists>c1 w1. iterations 1 demo_controller demo_world = Inr (c1, w1) \<and> \<not> c_done c1"
    using a [rule_format, of 1] by simp
  have a2: "\<exists>c2 w2. iterations 2 demo_controller demo_world = Inr (c2, w2) \<and> \<not> c_done c2"
    using a [rule_format, of 2] by simp
  show ?thesis
    using h1 h2 b e a1 a2 by blast
qed

section \<open>The time label\<close>

lemma digit_cases: "d < 10 \<Longrightarrow> d \<in> {0, 1, 2, 3, 4, 5, 6, 7, 8, 9::nat}"
  by auto

lemma digit_val_digit_char: "d < 10 \<Longrightarrow> digit_val (digit_char d) = d"
  using digit_cases [of d] by (auto simp: digit_val_def digit_char_def)

lemma digit_char_in: "d < 10 \<Longrightarrow> digit_char d \<in> set ''0123456789''"
  unfolding digit_char_def by (rule nth_mem) simp

lemma val_nat_snoc: "val_nat (s @ [ch]) = 10 * val_nat s + digit_val ch"
  by (simp add: val_nat_def)

lemma val_nat_str_nat: "val_nat (str_nat n) = n"
proof (induction n rule: str_nat.induct)
  case (1 n)
  show ?case
  proof (cases "n < 10")
    case True
    then show ?thesis
      by (subst str_nat.simps) (simp add: val_nat_def digit_val_digit_char)
  next
    case False
    then have "val_nat (str_nat n) = 10 * val_nat (str_nat (n div 10)) + digit_val (digit_char (n mod 10))"
      by (subst str_nat.simps) (simp add: val_nat_snoc)
    also have "\<dots> = 10 * (n div 10) + n mod 10"
      using False "1.IH" by (simp add: digit_val_digit_char)
    finally show ?thesis by simp
  qed
qed

lemma str_nat_digits: "set (str_nat n) \<subseteq> set ''0123456789''"
proof (induction n rule: str_nat.induct)
  case (1 n)
  show ?case
  proof (cases "n < 10")
    case True
    then show ?thesis
      using digit_char_in [of n] by (subst str_nat.simps) simp
  next
    case False
    have "n mod 10 < 10" by simp
    then have "digit_char (n mod 10) \<in> set ''0123456789''" by (rule digit_char_in)
    then show ?thesis
      using False "1.IH" by (subst str_nat.simps) simp
  qed
qed

lemma str_nat_nonempty: "str_nat n \<noteq> []"
  by (subst str_nat.simps) simp

lemma hd_str_nat: "hd (str_nat n) \<noteq> CHR ''-''"
proof -
  have "hd (str_nat n) \<in> set (str_nat n)" using str_nat_nonempty by simp
  then have "hd (str_nat n) \<in> set ''0123456789''" using str_nat_digits by blast
  then show ?thesis by auto
qed

lemma val_int_str_int: "val_int (str_int k) = k"
  by (simp add: val_int_def str_int_def val_nat_str_nat str_nat_nonempty hd_str_nat)

lemma str_int_no_point: "CHR ''.'' \<notin> set (str_int k)"
proof -
  have "CHR ''.'' \<notin> set (str_nat n)" for n
    using str_nat_digits [of n] by auto
  then show ?thesis by (simp add: str_int_def)
qed

lemma py_int_trunc:
  "\<bar>real_of_int (py_int x)\<bar> \<le> \<bar>x\<bar> \<and> \<bar>x - real_of_int (py_int x)\<bar> < 1"
  unfolding py_int_def by (cases "0 \<le> x") (simp_all, linarith+)

text \<open>
  C9. \<open>View.draw_time\<close> sets the time label to \<open>'Time: '\<close> followed by the decimal
  numeral of \<open>int(v)\<close>, where \<open>v\<close> is the observed time: the numeral reads back as
  \<open>int(v)\<close>, holds no decimal point, and \<open>int(v)\<close> is \<open>v\<close> truncated toward zero (not
  larger in absolute value, and less than 1 away).
\<close>

theorem draw_time_truncates:
  assumes "v_observed v = Some ob"
  shows "\<exists>s. View_draw_time v = Inr (v\<lparr>v_time_text := (v_time_text v)\<lparr>t_label := ''Time: '' @ s\<rparr>\<rparr>) \<and>
           s = str_int (py_int (obs_time ob)) \<and>
           val_int s = py_int (obs_time ob) \<and>
           CHR ''.'' \<notin> set s \<and>
           \<bar>real_of_int (py_int (obs_time ob))\<bar> \<le> \<bar>obs_time ob\<bar> \<and>
           \<bar>obs_time ob - real_of_int (py_int (obs_time ob))\<bar> < 1"
  using assms py_int_trunc [of "obs_time ob"]
  by (simp add: View_draw_time_def val_int_str_int str_int_no_point)

theorem draw_time_truncates_witness:
  "v_observed demo_view = Some \<lparr>obs_time = 1237 / 100, obs_done = False\<rparr> \<and>
   View_draw_time demo_view =
     Inr (demo_view\<lparr>v_time_text := (v_time_text demo_view)\<lparr>t_label := ''Time: 12''\<rparr>\<rparr>) \<and>
   val_int ''12'' = 12 \<and> py_int (1237 / 100) = 12"
proof -
  have h: "v_observed demo_view = Some \<lparr>obs_time = 1237 / 100, obs_done = False\<rparr>"
    by (simp add: demo_view_def)
  have p: "py_int (1237 / 100) = 12" by (simp add: py_int_def)
  have s: "str_int 12 = ''12''"
    by (simp add: str_int_def str_nat.simps digit_char_def)
  show ?thesis
    using h draw_time_truncates [OF h] by (simp add: p s)
qed


end
